theory Spec2Isabelle
  imports Complex_Main "HOL-Library.Sublist"
begin

section \<open>Errors\<close>

text \<open>
  The exceptions the modelled functions can raise. \<open>AssertionError\<close> carries the
  message of the failed \<^verbatim>\<open>assert\<close>. \<open>UnboundLocalError\<close> is what Python raises when
  a local variable is read before any assignment to it.
\<close>

datatype py_error =
    UnboundLocalError
  | IndexError
  | AssertionError string
  | ZeroDivisionError

text \<open>
  Python's built-in exception hierarchy: \<open>IndexError\<close> (with \<open>KeyError\<close>) derives from
  \<open>LookupError\<close>; \<open>UnboundLocalError\<close> derives from \<open>NameError\<close>, \<open>AssertionError\<close>
  from \<open>Exception\<close> and \<open>ZeroDivisionError\<close> from \<open>ArithmeticError\<close>.
\<close>

fun is_LookupError :: "py_error \<Rightarrow> bool" where
  "is_LookupError IndexError = True"
| "is_LookupError UnboundLocalError = False"
| "is_LookupError (AssertionError msg) = False"
| "is_LookupError ZeroDivisionError = False"

section \<open>String primitives of Python used by \<open>helpers.py\<close>\<close>

text \<open>
  A Python \<open>str\<close> is modelled as a \<open>string\<close> (a list of 8-bit characters); every
  literal of the source is ASCII.
\<close>

text \<open>\<^verbatim>\<open>sub in s\<close>: \<open>sub\<close> occurs in \<open>s\<close> as a contiguous substring.\<close>

fun str_in :: "'a list \<Rightarrow> 'a list \<Rightarrow> bool" where
  "str_in sub [] = (sub = [])"
| "str_in sub (c # cs) = (prefix sub (c # cs) \<or> str_in sub cs)"

text \<open>
  \<^verbatim>\<open>s.replace(old, new)\<close>: every non-overlapping occurrence of \<open>old\<close>, found from left
  to right, is replaced; the text after an occurrence is scanned on, the replacement is
  not scanned again. For an empty \<open>old\<close> Python puts \<open>new\<close> before every character and
  at the end.
\<close>

function py_replace :: "'a list \<Rightarrow> 'a list \<Rightarrow> 'a list \<Rightarrow> 'a list" where
  "py_replace old new [] = (if old = [] then new else [])"
| "py_replace old new (c # cs) =
     (if old = [] then new @ c # py_replace old new cs
      else if prefix old (c # cs) then new @ py_replace old new (drop (length old) (c # cs))
      else c # py_replace old new cs)"
  by pat_completeness auto
termination
  by (relation "measure (\<lambda>(old, new, s). length s)") auto

text \<open>\<^verbatim>\<open>s.split(d)\<close> for a one-character separator: never empty, keeps empty tokens.\<close>

fun split_on :: "'a \<Rightarrow> 'a list \<Rightarrow> 'a list list" where
  "split_on d [] = [[]]"
| "split_on d (c # cs) =
     (if c = d then [] # split_on d cs
      else (c # hd (split_on d cs)) # tl (split_on d cs))"

text \<open>\<^verbatim>\<open>sep.join(tokens)\<close>.\<close>

fun join :: "'a list \<Rightarrow> 'a list list \<Rightarrow> 'a list" where
  "join sep [] = []"
| "join sep [t] = t"
| "join sep (t # u # us) = t @ sep @ join sep (u # us)"

section \<open>\<open>extract_parameter_name\<close>\<close>

text \<open>
  The \<^verbatim>\<open>for var in variables\<close> loop with its \<^verbatim>\<open>break\<close>: \<open>Some\<close> of the first variable
  that occurs in the key, \<open>None\<close> when the loop ends with \<open>var_name\<close> never assigned.
\<close>

fun find_var :: "string list \<Rightarrow> string \<Rightarrow> string option" where
  "find_var [] key = None"
| "find_var (var # vars) key = (if str_in var key then Some var else find_var vars key)"

text \<open>
  The loop \<^verbatim>\<open>while key[-1] == '_': key = key[:-1]\<close>. Reading \<open>key[-1]\<close> of the empty
  string raises \<open>IndexError\<close>.
\<close>

function strip_trailing :: "string \<Rightarrow> py_error + string" where
  "strip_trailing key =
     (if key = [] then Inl IndexError
      else if last key = CHR ''_'' then strip_trailing (butlast key)
      else Inr key)"
  by pat_completeness auto
termination
  by (relation "measure length") auto

text \<open>Reading \<open>var_name\<close> in a \<^verbatim>\<open>return\<close>: it raises when the loop never assigned it.\<close>

definition return_with :: "string \<Rightarrow> string option \<Rightarrow> py_error + (string \<times> string)" where
  "return_with name var_name =
     (case var_name of None \<Rightarrow> Inl UnboundLocalError | Some v \<Rightarrow> Inr (name, v))"

definition extract_parameter_name ::
    "string \<Rightarrow> string list \<Rightarrow> py_error + (string \<times> string)" where
  "extract_parameter_name key0 variables =
     (let key1 = (if str_in ''.csv'' key0
                  then join ''_'' (butlast (split_on CHR ''_'' (py_replace ''.csv'' [] key0)))
                  else key0);
          var_name = find_var variables key1
      in if str_in ''stat'' key1 then return_with ''stat'' var_name
         else
           let key2 = py_replace '';1'' [] key1;
               key3 = py_replace ''reco_leading_muon_'' [] key2;
               key4 = py_replace ''true_leading_muon_'' [] key3;
               key5 = py_replace ''momentum_gev'' [] key4;
               key6 = py_replace ''costheta'' [] key5;
               key7 = py_replace ''multisigma_'' [] key6;
               key8 = py_replace ''multisim_'' [] key7;
               key9 = py_replace ''nsigma_'' [] key8;
               key10 = py_replace ''GENIEReWeight_SBN_v1_'' [] key9
           in case strip_trailing key10 of
                Inl e \<Rightarrow> Inl e
              | Inr key \<Rightarrow> return_with key var_name)"

section \<open>\<open>get_avg_fracunc\<close>\<close>

text \<open>
  Floating-point numbers are modelled as real numbers: the model says which sums,
  products and quotients the functions form, with their exact values. Rounding and
  overflow are outside it: a theorem gives the exact value of the expression a call
  evaluates, not the double that the evaluation rounds it to.
\<close>

text \<open>\<^verbatim>\<open>str(n)\<close> of a length, as an f-string renders it: decimal, no leading zero.\<close>

definition digit_char :: "nat \<Rightarrow> char" where
  "digit_char d = ''0123456789'' ! d"

fun str_nat :: "nat \<Rightarrow> string" where
  "str_nat n = (if n < 10 then [digit_char n] else str_nat (n div 10) @ [digit_char (n mod 10)])"

declare str_nat.simps [simp del]

text \<open>Reading a decimal numeral back, to state that \<open>str_nat\<close> renders its argument.\<close>

definition digit_val :: "char \<Rightarrow> nat" where
  "digit_val c = of_char c - 48"

definition nat_of_str :: "string \<Rightarrow> nat" where
  "nat_of_str s = foldl (\<lambda>a c. 10 * a + digit_val c) 0 s"

text \<open>
  \<^verbatim>\<open>np.average(a, weights=w)\<close> on two one-dimensional arrays of one length: numpy sums
  the weights, raises \<open>ZeroDivisionError\<close> when that sum is zero, and otherwise returns
  the sum of the products divided by it.
\<close>

definition np_average :: "real list \<Rightarrow> real list \<Rightarrow> py_error + real" where
  "np_average a weights =
     (let scl = sum_list weights
      in if scl = 0 then Inl ZeroDivisionError
         else Inr (sum_list (map2 (*) a weights) / scl))"

definition length_message :: "nat \<Rightarrow> nat \<Rightarrow> string" where
  "length_message n m =
     ''Fractional uncertainties ('' @ str_nat n @ '') and central values ('' @ str_nat m
       @ '') must have the same length''"

definition get_avg_fracunc :: "real list \<Rightarrow> real list \<Rightarrow> py_error + real" where
  "get_avg_fracunc frac_uncs cv =
     (if length frac_uncs = length cv then np_average frac_uncs cv
      else Inl (AssertionError (length_message (length frac_uncs) (length cv))))"

section \<open>\<open>convert_smearing_to_response\<close>\<close>

text \<open>
  A two-dimensional array is the list of its rows. A division by zero yields one of
  \<open>inf\<close> and \<open>nan\<close>, written \<open>NonFinite\<close>; any other quotient is given by its exact
  value (an overflow of a product or of a quotient is not modelled).
\<close>

datatype npfloat = Finite real | NonFinite

definition true_divide :: "real \<Rightarrow> real \<Rightarrow> npfloat" where
  "true_divide x d = (if d = 0 then NonFinite else Finite (x / d))"

text \<open>
  One element of \<^verbatim>\<open>np.divide(x, d, out=o, where=w)\<close>: the quotient where the mask holds,
  the element of \<open>out\<close> left as it was elsewhere.
\<close>

definition divide_where :: "real \<Rightarrow> real \<Rightarrow> npfloat \<Rightarrow> bool \<Rightarrow> npfloat" where
  "divide_where x d out w = (if w then true_divide x d else out)"

definition ncols :: "'a list list \<Rightarrow> nat" where
  "ncols m = (case m of [] \<Rightarrow> 0 | row # _ \<Rightarrow> length row)"

text \<open>\<^verbatim>\<open>np.sum(m, axis=0)\<close>: the sum of every column.\<close>

definition sum_axis0 :: "real list list \<Rightarrow> real list" where
  "sum_axis0 m = map (\<lambda>j. sum_list (map (\<lambda>row. row ! j) m)) [0..<ncols m]"

text \<open>
  \<open>smearing * eff\<close> broadcasts \<open>eff\<close> along the rows (entry \<open>(i, j)\<close> is multiplied by
  \<open>eff[j]\<close>), and so do the division by \<open>denom\<close> and the mask \<open>denom != 0\<close>;
  \<open>out\<close> is an array of zeros.
\<close>

definition convert_smearing_to_response :: "real list list \<Rightarrow> real list \<Rightarrow> npfloat list list" where
  "convert_smearing_to_response smearing eff =
     (let denom = sum_axis0 smearing
      in map (\<lambda>row. map (\<lambda>j. divide_where (row ! j * eff ! j) (denom ! j) (Finite 0)
                                   (denom ! j \<noteq> 0))
                        [0..<ncols smearing])
             smearing)"

text \<open>The shapes the function is documented for: \<open>(N, N)\<close> and \<open>(N,)\<close>.\<close>

definition square_with :: "'a list list \<Rightarrow> 'b list \<Rightarrow> bool" where
  "square_with smearing eff =
     (list_all (\<lambda>row. length row = length smearing) smearing \<and> length eff = length smearing)"

section \<open>The group list of \<open>SpinePurity.draw\<close>\<close>

text \<open>
  \<open>self._categories\<close> is a dictionary, which keeps its insertion order: it is modelled as
  the list of its items, and \<open>values()\<close> is the list of their second components. The loop
  appends a value to \<open>groups\<close> unless it is already there.
\<close>

definition dict_values :: "('k \<times> 'v) list \<Rightarrow> 'v list" where
  "dict_values d = map snd d"

definition add_group :: "'g \<Rightarrow> 'g list \<Rightarrow> 'g list" where
  "add_group category groups = (if category \<notin> set groups then groups @ [category] else groups)"

definition draw_groups :: "('k \<times> 'g) list \<Rightarrow> 'g list" where
  "draw_groups categories = fold add_group (dict_values categories) []"

section \<open>The specification's wording, for comparison with the code\<close>

text \<open>The text before the last \<open>_\<close> of a string; empty when there is no \<open>_\<close>.\<close>

definition drop_last_token :: "string \<Rightarrow> string" where
  "drop_last_token s = rev (drop 1 (dropWhile (\<lambda>c. c \<noteq> CHR ''_'') (rev s)))"

text \<open>Step 1 of the resolver: the shortening of a key that contains \<open>.csv\<close>.\<close>

definition csv_shortened :: "string \<Rightarrow> string" where
  "csv_shortened key =
     (if str_in ''.csv'' key then drop_last_token (py_replace ''.csv'' [] key) else key)"

text \<open>Step 4: the literal tokens removed, in this order, each from the result of the last.\<close>

definition removed_tokens :: "string list" where
  "removed_tokens =
     ['';1'', ''reco_leading_muon_'', ''true_leading_muon_'', ''momentum_gev'', ''costheta'',
      ''multisigma_'', ''multisim_'', ''nsigma_'', ''GENIEReWeight_SBN_v1_'']"

definition remove_tokens :: "string \<Rightarrow> string" where
  "remove_tokens key = fold (\<lambda>token k. py_replace token [] k) removed_tokens key"

text \<open>Step 5: the string without its trailing \<open>_\<close> characters.\<close>

definition rstrip_underscores :: "string \<Rightarrow> string" where
  "rstrip_underscores s = rev (dropWhile (\<lambda>c. c = CHR ''_'') (rev s))"

text \<open>
  \<open>v\<close> is the first entry of \<open>variables\<close>, in the given order, that occurs in \<open>key\<close>.
\<close>

definition first_match :: "string list \<Rightarrow> string \<Rightarrow> string \<Rightarrow> bool" where
  "first_match variables key v =
     (\<exists>before after. variables = before @ v # after \<and> str_in v key
        \<and> list_all (\<lambda>u. \<not> str_in u key) before)"

text \<open>A list without its repeated elements, each kept where it is first seen.\<close>

fun first_seen :: "'a list \<Rightarrow> 'a list" where
  "first_seen [] = []"
| "first_seen (x # xs) = x # first_seen (removeAll x xs)"

section \<open>Facts about the string primitives\<close>

text \<open>\<open>str_in\<close> is the substring relation of the list library.\<close>

lemma str_in_sublist: "str_in sub s \<longleftrightarrow> sublist sub s"
  by (induction s) (auto simp: sublist_Cons_right)

lemma split_on_not_Nil: "split_on d s \<noteq> []"
  by (induction s) auto

lemma split_on_no_sep: "d \<notin> set t \<Longrightarrow> split_on d t = [t]"
  by (induction t) auto

lemma split_on_last_sep:
  "d \<notin> set t \<Longrightarrow> split_on d (a @ d # t) = split_on d a @ [t]"
proof (induction a)
  case Nil
  then show ?case by (simp add: split_on_no_sep)
next
  case (Cons c a)
  then show ?case using split_on_not_Nil [of d a] by (cases "split_on d a") auto
qed

lemma join_Cons_Cons: "join sep ((c # u) # us) = c # join sep (u # us)"
  by (cases us) auto

lemma join_split_on: "join [d] (split_on d a) = a"
proof (induction a)
  case Nil
  then show ?case by simp
next
  case (Cons c a)
  obtain u us where X: "split_on d a = u # us"
    using split_on_not_Nil [of d a] by (cases "split_on d a") auto
  with Cons show ?case by (auto simp: join_Cons_Cons)
qed

lemma join_butlast_split_on:
  "join [d] (butlast (split_on d s)) = rev (drop 1 (dropWhile (\<lambda>c. c \<noteq> d) (rev s)))"
proof (cases "d \<in> set s")
  case False
  then have dw: "dropWhile (\<lambda>c. c \<noteq> d) (rev s) = []" by auto
  from False show ?thesis unfolding dw by (simp add: split_on_no_sep)
next
  case True
  then obtain a t where s: "s = a @ d # t" and t: "d \<notin> set t"
    using split_list_last by fastforce
  have "dropWhile (\<lambda>c. c \<noteq> d) (rev t @ d # rev a) = d # rev a"
    using t by (simp add: dropWhile_append)
  with s t show ?thesis by (simp add: split_on_last_sep join_split_on)
qed

lemma strip_trailing_snoc:
  "strip_trailing (k @ [c]) = (if c = CHR ''_'' then strip_trailing k else Inr (k @ [c]))"
  by (subst strip_trailing.simps) simp

lemma strip_trailing_Nil: "strip_trailing [] = Inl IndexError"
  by (subst strip_trailing.simps) simp

lemma strip_trailing_eq:
  "strip_trailing k =
     (if list_all (\<lambda>c. c = CHR ''_'') k then Inl IndexError else Inr (rstrip_underscores k))"
proof (induction k rule: rev_induct)
  case Nil
  then show ?case by (simp add: strip_trailing_Nil)
next
  case (snoc c k)
  then show ?case by (simp add: strip_trailing_snoc rstrip_underscores_def del: strip_trailing.simps)
qed

lemma find_var_None: "find_var vars key = None \<longleftrightarrow> list_all (\<lambda>u. \<not> str_in u key) vars"
  by (induction vars) auto

lemma find_var_Some: "find_var vars key = Some v \<longleftrightarrow> first_match vars key v"
proof (induction vars)
  case Nil
  then show ?case by (simp add: first_match_def)
next
  case (Cons u vars)
  show ?case
  proof (cases "str_in u key")
    case True
    have "first_match (u # vars) key v \<longleftrightarrow> u = v"
    proof
      assume "first_match (u # vars) key v"
      then obtain before after where *: "u # vars = before @ v # after"
        "list_all (\<lambda>u. \<not> str_in u key) before" by (auto simp: first_match_def)
      with True show "u = v" by (cases before) auto
    next
      assume "u = v"
      with True have "u # vars = [] @ v # vars \<and> str_in v key \<and> list_all (\<lambda>u. \<not> str_in u key) []"
        by simp
      then show "first_match (u # vars) key v" unfolding first_match_def by blast
    qed
    with True show ?thesis by auto
  next
    case False
    have "first_match (u # vars) key v \<longleftrightarrow> first_match vars key v"
    proof
      assume "first_match (u # vars) key v"
      then obtain before after where *: "u # vars = before @ v # after" "str_in v key"
        "list_all (\<lambda>u. \<not> str_in u key) before" by (auto simp: first_match_def)
      with False obtain b' where "before = u # b'" by (cases before) auto
      with * show "first_match vars key v" by (auto simp: first_match_def)
    next
      assume "first_match vars key v"
      then obtain before after where *: "vars = before @ v # after" "str_in v key"
        "list_all (\<lambda>u. \<not> str_in u key) before" by (auto simp: first_match_def)
      with False have "u # vars = (u # before) @ v # after \<and> str_in v key
          \<and> list_all (\<lambda>u. \<not> str_in u key) (u # before)" by simp
      then show "first_match (u # vars) key v" unfolding first_match_def by blast
    qed
    with False Cons show ?thesis by simp
  qed
qed

lemma csv_shortened_code:
  "(if str_in ''.csv'' key
    then join ''_'' (butlast (split_on CHR ''_'' (py_replace ''.csv'' [] key)))
    else key) = csv_shortened key"
  by (simp add: csv_shortened_def drop_last_token_def join_butlast_split_on)

lemma extract_parameter_name_eq:
  "extract_parameter_name key variables =
     (if str_in ''stat'' (csv_shortened key)
      then return_with ''stat'' (find_var variables (csv_shortened key))
      else case strip_trailing (remove_tokens (csv_shortened key)) of
             Inl e \<Rightarrow> Inl e
           | Inr k \<Rightarrow> return_with k (find_var variables (csv_shortened key)))"
  unfolding extract_parameter_name_def csv_shortened_code Let_def
  by (simp add: remove_tokens_def removed_tokens_def del: strip_trailing.simps)

section \<open>Claims about \<open>extract_parameter_name\<close>\<close>

text \<open>
  Claim C7. A key in which \<open>stat\<close> occurs (in the key as shortened by the \<open>.csv\<close>
  step) and in which some supplied variable occurs is resolved to the name \<open>stat\<close>,
  unchanged by any token removal, and to the first supplied variable that occurs in it.
\<close>

theorem stat_key_resolves_to_stat:
  assumes "str_in ''stat'' (csv_shortened key)"
    and "\<exists>u \<in> set variables. str_in u (csv_shortened key)"
  shows "\<exists>v. first_match variables (csv_shortened key) v
           \<and> extract_parameter_name key variables = Inr (''stat'', v)"
proof -
  from assms(2) have "find_var variables (csv_shortened key) \<noteq> None"
    by (auto simp: find_var_None list_all_iff)
  then obtain v where v: "find_var variables (csv_shortened key) = Some v" by auto
  with assms(1) have "extract_parameter_name key variables = Inr (''stat'', v)"
    by (simp add: extract_parameter_name_eq return_with_def)
  with v show ?thesis by (auto simp: find_var_Some)
qed

theorem stat_key_resolves_to_stat_witness:
  "str_in ''stat'' (csv_shortened ''stat_costheta_cv.csv'')
   \<and> (\<exists>u \<in> set [''costheta'', ''momentum_gev'']. str_in u (csv_shortened ''stat_costheta_cv.csv''))
   \<and> (\<exists>v. first_match [''costheta'', ''momentum_gev''] (csv_shortened ''stat_costheta_cv.csv'') v
          \<and> extract_parameter_name ''stat_costheta_cv.csv'' [''costheta'', ''momentum_gev'']
              = Inr (''stat'', v))
   \<and> extract_parameter_name ''stat_costheta_cv.csv'' [''costheta'', ''momentum_gev'']
       = Inr (''stat'', ''costheta'')"
proof -
  have k: "csv_shortened ''stat_costheta_cv.csv'' = ''stat_costheta''"
    by (simp add: csv_shortened_def drop_last_token_def)
  have h1: "str_in ''stat'' (csv_shortened ''stat_costheta_cv.csv'')"
    unfolding k by simp
  have h2: "\<exists>u \<in> set [''costheta'', ''momentum_gev'']. str_in u (csv_shortened ''stat_costheta_cv.csv'')"
    unfolding k by simp
  have e: "extract_parameter_name ''stat_costheta_cv.csv'' [''costheta'', ''momentum_gev'']
       = Inr (''stat'', ''costheta'')"
    unfolding extract_parameter_name_eq k by (simp add: return_with_def)
  from h1 h2 e stat_key_resolves_to_stat [OF h1 h2] show ?thesis by blast
qed

text \<open>
  Claim C6, as stated, at the key \<open>costheta\<close>: \<open>stat\<close> does not occur in it and a supplied
  variable does, yet the call raises \<open>IndexError\<close> where the claim has it return the
  stripped key.
\<close>

theorem emptied_key_counterexample:
  "\<not> str_in ''stat'' (csv_shortened ''costheta'')
   \<and> str_in ''costheta'' (csv_shortened ''costheta'')
   \<and> extract_parameter_name ''costheta'' [''costheta''] = Inl IndexError
   \<and> extract_parameter_name ''costheta'' [''costheta'']
       \<noteq> Inr (rstrip_underscores (remove_tokens (csv_shortened ''costheta'')), ''costheta'')"
proof -
  have k: "csv_shortened ''costheta'' = ''costheta''"
    by (simp add: csv_shortened_def)
  have r: "remove_tokens ''costheta'' = []"
    by (simp add: remove_tokens_def removed_tokens_def)
  show ?thesis
    unfolding extract_parameter_name_eq k r by (simp add: strip_trailing_Nil)
qed

text \<open>
  Claim C6, amended. For a key in which \<open>stat\<close> does not occur (after the \<open>.csv\<close>
  shortening), in which some supplied variable occurs, and of which the token removals
  leave at least one character other than \<open>_\<close>: the canonical name is the shortened key
  with \<open>;1\<close> and the eight tokens removed in order and the trailing \<open>_\<close> characters
  stripped, and the variable is the first supplied one that occurs in the shortened key.
\<close>

theorem canonical_name_of_key:
  assumes "\<not> str_in ''stat'' (csv_shortened key)"
    and "\<exists>u \<in> set variables. str_in u (csv_shortened key)"
    and "\<exists>c \<in> set (remove_tokens (csv_shortened key)). c \<noteq> CHR ''_''"
  shows "\<exists>v. first_match variables (csv_shortened key) v
           \<and> extract_parameter_name key variables
               = Inr (rstrip_underscores (remove_tokens (csv_shortened key)), v)"
proof -
  from assms(2) have "find_var variables (csv_shortened key) \<noteq> None"
    by (auto simp: find_var_None list_all_iff)
  then obtain v where v: "find_var variables (csv_shortened key) = Some v" by auto
  from assms(3) have "\<not> list_all (\<lambda>c. c = CHR ''_'') (remove_tokens (csv_shortened key))"
    by (auto simp: list_all_iff)
  then have "strip_trailing (remove_tokens (csv_shortened key))
      = Inr (rstrip_underscores (remove_tokens (csv_shortened key)))"
    by (simp add: strip_trailing_eq del: strip_trailing.simps)
  with assms(1) v have "extract_parameter_name key variables
      = Inr (rstrip_underscores (remove_tokens (csv_shortened key)), v)"
    by (simp add: extract_parameter_name_eq return_with_def del: strip_trailing.simps)
  with v show ?thesis by (auto simp: find_var_Some)
qed

theorem canonical_name_of_key_witness:
  "\<not> str_in ''stat'' (csv_shortened ''GENIEReWeight_SBN_v1_multisigma_foo_momentum_gev;1'')
   \<and> (\<exists>u \<in> set [''costheta'', ''momentum_gev''].
         str_in u (csv_shortened ''GENIEReWeight_SBN_v1_multisigma_foo_momentum_gev;1''))
   \<and> (\<exists>c \<in> set (remove_tokens
                  (csv_shortened ''GENIEReWeight_SBN_v1_multisigma_foo_momentum_gev;1'')).
         c \<noteq> CHR ''_'')
   \<and> (\<exists>v. first_match [''costheta'', ''momentum_gev'']
             (csv_shortened ''GENIEReWeight_SBN_v1_multisigma_foo_momentum_gev;1'') v
          \<and> extract_parameter_name ''GENIEReWeight_SBN_v1_multisigma_foo_momentum_gev;1''
                [''costheta'', ''momentum_gev'']
              = Inr (rstrip_underscores (remove_tokens
                  (csv_shortened ''GENIEReWeight_SBN_v1_multisigma_foo_momentum_gev;1'')), v))
   \<and> extract_parameter_name ''GENIEReWeight_SBN_v1_multisigma_foo_momentum_gev;1''
         [''costheta'', ''momentum_gev'']
       = Inr (''foo'', ''momentum_gev'')"
proof -
  have k: "csv_shortened ''GENIEReWeight_SBN_v1_multisigma_foo_momentum_gev;1''
      = ''GENIEReWeight_SBN_v1_multisigma_foo_momentum_gev;1''"
    by (simp add: csv_shortened_def)
  have r: "remove_tokens ''GENIEReWeight_SBN_v1_multisigma_foo_momentum_gev;1'' = ''foo_''"
    by (simp add: remove_tokens_def removed_tokens_def)
  have h1: "\<not> str_in ''stat'' (csv_shortened ''GENIEReWeight_SBN_v1_multisigma_foo_momentum_gev;1'')"
    unfolding k by simp
  have h2: "\<exists>u \<in> set [''costheta'', ''momentum_gev''].
      str_in u (csv_shortened ''GENIEReWeight_SBN_v1_multisigma_foo_momentum_gev;1'')"
    unfolding k by simp
  have h3: "\<exists>c \<in> set (remove_tokens
      (csv_shortened ''GENIEReWeight_SBN_v1_multisigma_foo_momentum_gev;1'')). c \<noteq> CHR ''_''"
    unfolding k r by simp
  have e: "extract_parameter_name ''GENIEReWeight_SBN_v1_multisigma_foo_momentum_gev;1''
      [''costheta'', ''momentum_gev''] = Inr (''foo'', ''momentum_gev'')"
    by (simp add: extract_parameter_name_def return_with_def)
  from h1 h2 h3 e canonical_name_of_key [OF h1 h2 h3] show ?thesis by blast
qed

text \<open>
  What the call does when no supplied variable occurs in the shortened key: the loop
  leaves \<open>var_name\<close> unassigned, and the call raises at the first \<^verbatim>\<open>return\<close> it reaches,
  unless the trailing-underscore loop has raised before.
\<close>

lemma no_match_raises:
  assumes "list_all (\<lambda>u. \<not> str_in u (csv_shortened key)) variables"
  shows "extract_parameter_name key variables =
           (if \<not> str_in ''stat'' (csv_shortened key)
               \<and> list_all (\<lambda>c. c = CHR ''_'') (remove_tokens (csv_shortened key))
            then Inl IndexError else Inl UnboundLocalError)"
proof -
  from assms have "find_var variables (csv_shortened key) = None"
    by (simp add: find_var_None)
  then show ?thesis
    by (simp add: extract_parameter_name_eq return_with_def strip_trailing_eq
             del: strip_trailing.simps)
qed

lemma returned_variable_is_first_match:
  assumes "extract_parameter_name key variables = Inr (name, v)"
  shows "first_match variables (csv_shortened key) v"
proof -
  from assms have "find_var variables (csv_shortened key) = Some v"
    by (auto simp: extract_parameter_name_eq return_with_def
             split: if_splits sum.splits option.splits simp del: strip_trailing.simps)
  then show ?thesis by (simp add: find_var_Some)
qed

text \<open>
  Claim C8, at the key \<open>foo\<close> with the variable list \<open>[costheta]\<close>: no supplied variable
  occurs in the key, and the call fails with \<open>UnboundLocalError\<close>, raised by the read of
  the unassigned \<open>var_name\<close>; this exception is not of the \<open>LookupError\<close> class.
\<close>

theorem unmatched_variable_raises_unbound_local:
  "find_var [''costheta''] (csv_shortened ''foo'') = None
   \<and> extract_parameter_name ''foo'' [''costheta''] = Inl UnboundLocalError
   \<and> \<not> is_LookupError UnboundLocalError"
  by (simp add: extract_parameter_name_def return_with_def csv_shortened_def)

text \<open>
  Claim C9. The key \<open>multisigma_costheta;1\<close> with the variable list \<open>[costheta]\<close> is
  consumed whole by the removals, and the call fails with \<open>IndexError\<close>; so does the key
  \<open>_costheta\<close>, which the removals leave as \<open>_\<close> and the stripping loop then empties.
\<close>

theorem consumed_key_raises_index_error:
  "remove_tokens (csv_shortened ''multisigma_costheta;1'') = []
   \<and> extract_parameter_name ''multisigma_costheta;1'' [''costheta''] = Inl IndexError
   \<and> remove_tokens (csv_shortened ''_costheta'') = ''_''
   \<and> extract_parameter_name ''_costheta'' [''costheta''] = Inl IndexError"
  by (simp add: extract_parameter_name_def return_with_def csv_shortened_def
        remove_tokens_def removed_tokens_def)

section \<open>Facts about the numeric functions\<close>

text \<open>\<open>str_nat\<close> is the decimal rendering: reading it back gives the number.\<close>

lemma digit_val_digit_char: "d < 10 \<Longrightarrow> digit_val (digit_char d) = d"
proof -
  assume "d < 10"
  then have "d \<in> {0, 1, 2, 3, 4, 5, 6, 7, 8, 9}" by auto
  then show ?thesis by (auto simp: digit_val_def digit_char_def)
qed

lemma nat_of_str_str_nat: "nat_of_str (str_nat n) = n"
proof (induction n rule: str_nat.induct)
  case (1 n)
  show ?case
  proof (cases "n < 10")
    case True
    then show ?thesis
      by (subst str_nat.simps) (simp add: nat_of_str_def digit_val_digit_char)
  next
    case False
    with 1 have "nat_of_str (str_nat (n div 10)) = n div 10" by simp
    with False show ?thesis
      by (subst str_nat.simps) (simp add: nat_of_str_def digit_val_digit_char)
  qed
qed

lemma str_nat_digit: "n < 10 \<Longrightarrow> str_nat n = [digit_char n]"
  by (simp add: str_nat.simps)

text \<open>Sums over a list, written with indices as the specification writes them.\<close>

lemma sum_list_map2_nth:
  "length a = length w \<Longrightarrow> sum_list (map2 (*) a w) = (\<Sum>i<length a. a ! i * w ! i :: real)"
  by (simp add: sum_list_sum_nth atLeast0LessThan)

lemma sum_list_nth: "sum_list w = (\<Sum>i<length w. w ! i :: real)"
  by (simp add: sum_list_sum_nth atLeast0LessThan)

text \<open>Shape and entries of the response matrix.\<close>

lemma ncols_square: "square_with smearing eff \<Longrightarrow> ncols smearing = length smearing"
  by (cases smearing) (auto simp: square_with_def ncols_def)

lemma row_length_square:
  "square_with smearing eff \<Longrightarrow> i < length smearing \<Longrightarrow> length (smearing ! i) = length smearing"
  by (simp add: square_with_def list_all_length)

lemma sum_axis0_nth:
  "j < ncols m \<Longrightarrow> sum_axis0 m ! j = (\<Sum>k<length m. m ! k ! j)"
  by (simp add: sum_axis0_def sum_list_sum_nth atLeast0LessThan)

lemma response_nth:
  assumes "i < length smearing" and "j < ncols smearing"
  shows "convert_smearing_to_response smearing eff ! i ! j
           = divide_where (smearing ! i ! j * eff ! j) (\<Sum>k<length smearing. smearing ! k ! j)
               (Finite 0) ((\<Sum>k<length smearing. smearing ! k ! j) \<noteq> 0)"
  using assms by (simp add: convert_smearing_to_response_def Let_def sum_axis0_nth)

lemma response_shape:
  "length (convert_smearing_to_response smearing eff) = length smearing"
  "i < length smearing \<Longrightarrow>
     length (convert_smearing_to_response smearing eff ! i) = ncols smearing"
  by (simp_all add: convert_smearing_to_response_def Let_def)

text \<open>The loop over the values builds the list of first occurrences.\<close>

lemma fold_add_group:
  "fold add_group xs acc = acc @ first_seen (filter (\<lambda>x. x \<notin> set acc) xs)"
proof (induction xs arbitrary: acc)
  case Nil
  then show ?case by simp
next
  case (Cons x xs)
  show ?case
  proof (cases "x \<in> set acc")
    case True
    with Cons show ?thesis by (simp add: add_group_def)
  next
    case False
    have "removeAll x (filter (\<lambda>y. y \<notin> set acc) xs)
        = filter (\<lambda>y. y \<notin> set (acc @ [x])) xs"
      by (auto simp: removeAll_filter_not_eq intro: filter_cong)
    with False Cons [of "acc @ [x]"] show ?thesis by (simp add: add_group_def)
  qed
qed

lemma set_first_seen: "set (first_seen xs) = set xs"
  by (induction xs rule: first_seen.induct) auto

lemma distinct_first_seen: "distinct (first_seen xs)"
  by (induction xs rule: first_seen.induct) (auto simp: set_first_seen)

section \<open>Claims about \<open>get_avg_fracunc\<close>\<close>

text \<open>
  Claim C4. For two sequences of one length whose central values have a nonzero sum,
  \<open>get_avg_fracunc\<close> returns the sum of the products \<open>frac_uncs[i] * cv[i]\<close> divided by
  the sum of the \<open>cv[i]\<close>; for two sequences of different lengths it fails with an
  \<open>AssertionError\<close> whose message gives both lengths in decimal.
\<close>

theorem weighted_average_formula:
  "(length frac_uncs = length cv \<and> (\<Sum>i<length cv. cv ! i) \<noteq> 0 \<longrightarrow>
      get_avg_fracunc frac_uncs cv
        = Inr ((\<Sum>i<length frac_uncs. frac_uncs ! i * cv ! i) / (\<Sum>i<length cv. cv ! i)))
   \<and> (length frac_uncs \<noteq> length cv \<longrightarrow>
      get_avg_fracunc frac_uncs cv
        = Inl (AssertionError (''Fractional uncertainties ('' @ str_nat (length frac_uncs)
            @ '') and central values ('' @ str_nat (length cv)
            @ '') must have the same length'')))"
  by (simp add: get_avg_fracunc_def np_average_def length_message_def sum_list_map2_nth
        sum_list_nth [of cv])

theorem weighted_average_formula_witness:
  "length [1, 2, 3 :: real] = length [1, 1, 2 :: real]
   \<and> (\<Sum>i<length [1, 1, 2 :: real]. [1, 1, 2 :: real] ! i) \<noteq> 0
   \<and> get_avg_fracunc [1, 2, 3] [1, 1, 2] = Inr (9 / 4)
   \<and> length [1, 2, 3 :: real] \<noteq> length [1, 1, 2, 5 :: real]
   \<and> get_avg_fracunc [1, 2, 3] [1, 1, 2, 5]
       = Inl (AssertionError
           ''Fractional uncertainties (3) and central values (4) must have the same length'')"
  using weighted_average_formula [of "[1, 2, 3]" "[1, 1, 2]"]
    weighted_average_formula [of "[1, 2, 3]" "[1, 1, 2, 5]"]
  by (simp add: lessThan_Suc numeral_3_eq_3 str_nat_digit digit_char_def)

section \<open>Claims about \<open>convert_smearing_to_response\<close>\<close>

text \<open>
  Claim C2. For an \<open>N\<close> by \<open>N\<close> smearing matrix and an efficiency vector of length
  \<open>N\<close>, the result is an \<open>N\<close> by \<open>N\<close> matrix whose entry \<open>(i, j)\<close> is
  \<open>smearing[i][j] * eff[j]\<close> divided by the sum of column \<open>j\<close> of the smearing matrix
  itself (zero where that sum is zero); with an efficiency vector of ones and columns
  that each sum to one, the result is the smearing matrix.
\<close>

theorem response_matrix_entries:
  assumes "square_with smearing eff"
  shows "length (convert_smearing_to_response smearing eff) = length smearing
    \<and> (\<forall>i<length smearing.
          length (convert_smearing_to_response smearing eff ! i) = length smearing)
    \<and> (\<forall>i<length smearing. \<forall>j<length smearing.
          convert_smearing_to_response smearing eff ! i ! j
            = (if (\<Sum>k<length smearing. smearing ! k ! j) = 0 then Finite 0
               else Finite (smearing ! i ! j * eff ! j
                              / (\<Sum>k<length smearing. smearing ! k ! j))))
    \<and> (list_all (\<lambda>e. e = 1) eff
          \<and> (\<forall>j<length smearing. (\<Sum>k<length smearing. smearing ! k ! j) = 1)
        \<longrightarrow> convert_smearing_to_response smearing eff = map (map Finite) smearing)"
proof -
  let ?R = "convert_smearing_to_response smearing eff"
  let ?N = "length smearing"
  note nc = ncols_square [OF assms]
  have shape: "length ?R = ?N" "\<forall>i<?N. length (?R ! i) = ?N"
    by (simp_all add: response_shape nc)
  have entry: "?R ! i ! j
      = (if (\<Sum>k<?N. smearing ! k ! j) = 0 then Finite 0
         else Finite (smearing ! i ! j * eff ! j / (\<Sum>k<?N. smearing ! k ! j)))"
    if "i < ?N" "j < ?N" for i j
    using that by (simp add: response_nth nc divide_where_def true_divide_def)
  have same: "?R = map (map Finite) smearing"
    if ones: "list_all (\<lambda>e. e = 1) eff" and unit: "\<forall>j<?N. (\<Sum>k<?N. smearing ! k ! j) = 1"
  proof (rule nth_equalityI)
    show "length ?R = length (map (map Finite) smearing)" by (simp add: shape)
  next
    fix i assume "i < length ?R"
    then have i: "i < ?N" by (simp add: shape)
    show "?R ! i = map (map Finite) smearing ! i"
    proof (rule nth_equalityI)
      show "length (?R ! i) = length (map (map Finite) smearing ! i)"
        using i shape row_length_square [OF assms i] by simp
    next
      fix j assume "j < length (?R ! i)"
      then have j: "j < ?N" using i shape by simp
      then have "j < length eff" using assms by (simp add: square_with_def)
      with ones have "eff ! j = 1" by (simp add: list_all_length)
      with i j unit show "?R ! i ! j = map (map Finite) smearing ! i ! j"
        using row_length_square [OF assms i] by (simp add: entry)
    qed
  qed
  from shape entry same show ?thesis by blast
qed

theorem response_matrix_entries_witness:
  "square_with [[1 / 4, 1], [3 / 4, 0 :: real]] [1, 1 :: real]
   \<and> list_all (\<lambda>e. e = 1) [1, 1 :: real]
   \<and> convert_smearing_to_response [[1 / 4, 1], [3 / 4, 0]] [1, 1]
       = [[Finite (1 / 4), Finite 1], [Finite (3 / 4), Finite 0]]
   \<and> square_with [[1, 0], [3, 0 :: real]] [1 / 2, 1 :: real]
   \<and> convert_smearing_to_response [[1, 0], [3, 0]] [1 / 2, 1]
       = [[Finite (1 / 8), Finite 0], [Finite (3 / 8), Finite 0]]"
proof -
  have h1: "square_with [[1 / 4, 1], [3 / 4, 0 :: real]] [1, 1 :: real]"
    by (simp add: square_with_def)
  have h2: "list_all (\<lambda>e. e = 1) [1, 1 :: real]" by simp
  have h3: "\<forall>j<length [[1 / 4, 1], [3 / 4, 0 :: real]].
      (\<Sum>k<length [[1 / 4, 1], [3 / 4, 0 :: real]]. [[1 / 4, 1], [3 / 4, 0 :: real]] ! k ! j) = 1"
    by (simp add: numeral_2_eq_2 lessThan_Suc less_Suc_eq)
  have a: "convert_smearing_to_response [[1 / 4, 1], [3 / 4, 0]] [1, 1]
       = [[Finite (1 / 4), Finite 1], [Finite (3 / 4), Finite 0]]"
    using response_matrix_entries [OF h1] h2 h3 by simp
  have h4: "square_with [[1, 0], [3, 0 :: real]] [1 / 2, 1 :: real]"
    by (simp add: square_with_def)
  have b: "convert_smearing_to_response [[1, 0], [3, 0]] [1 / 2, 1]
       = [[Finite (1 / 8), Finite 0], [Finite (3 / 8), Finite 0]]"
    by (simp add: convert_smearing_to_response_def sum_axis0_def ncols_def divide_where_def
          true_divide_def numeral_2_eq_2 upt_rec)
  from h1 h2 a h4 b show ?thesis by blast
qed

text \<open>
  Claim C3. For every column of the smearing matrix whose sum is zero, every entry of the
  same column of the result is the zero that \<open>out\<close> held: the mask keeps the division
  from being carried out there, so the column holds no \<open>inf\<close> and no \<open>nan\<close>. The
  function has no raising path: its model has no error value.
\<close>

theorem zero_column_sum_gives_zero_column:
  assumes "square_with smearing eff"
    and "j < length smearing"
    and "(\<Sum>k<length smearing. smearing ! k ! j) = 0"
  shows "\<forall>i<length smearing. convert_smearing_to_response smearing eff ! i ! j = Finite 0"
  using assms by (simp add: response_nth ncols_square divide_where_def)

theorem zero_column_sum_gives_zero_column_witness:
  "square_with [[1, 0], [3, 0 :: real]] [1 / 2, 1 :: real]
   \<and> (1 :: nat) < length [[1, 0], [3, 0 :: real]]
   \<and> (\<Sum>k<length [[1, 0], [3, 0 :: real]]. [[1, 0], [3, 0 :: real]] ! k ! 1) = 0
   \<and> convert_smearing_to_response [[1, 0], [3, 0]] [1 / 2, 1] ! 0 ! 1 = Finite 0
   \<and> convert_smearing_to_response [[1, 0], [3, 0]] [1 / 2, 1] ! 1 ! 1 = Finite 0"
proof -
  have h1: "square_with [[1, 0], [3, 0 :: real]] [1 / 2, 1 :: real]"
    by (simp add: square_with_def)
  have h2: "(1 :: nat) < length [[1, 0], [3, 0 :: real]]" by simp
  have h3: "(\<Sum>k<length [[1, 0], [3, 0 :: real]]. [[1, 0], [3, 0 :: real]] ! k ! 1) = 0"
    by (simp add: numeral_2_eq_2 lessThan_Suc)
  from zero_column_sum_gives_zero_column [OF h1 h2 h3]
  have "convert_smearing_to_response [[1, 0], [3, 0]] [1 / 2, 1] ! 0 ! 1 = Finite 0"
    and "convert_smearing_to_response [[1, 0], [3, 0]] [1 / 2, 1] ! 1 ! 1 = Finite 0"
    by simp_all
  with h1 h2 h3 show ?thesis by blast
qed

section \<open>Claim about the group list of \<open>SpinePurity.draw\<close>\<close>

text \<open>
  Claim C10. The group list is the list of the values of the category dictionary without
  repetitions, each value standing where it is first seen: it has no duplicates and the
  same elements as the values. Being a function of the dictionary, it is the same on
  every invocation.
\<close>

theorem groups_are_values_first_seen:
  "draw_groups categories = first_seen (dict_values categories)
   \<and> distinct (draw_groups categories)
   \<and> set (draw_groups categories) = set (dict_values categories)"
  by (simp add: draw_groups_def fold_add_group distinct_first_seen set_first_seen)

theorem groups_are_values_first_seen_witness:
  "draw_groups [(''numu_cc'', ''Signal''), (''nue_cc'', ''Other nu''), (''nc'', ''Other nu''),
                (''numu_cc_oofv'', ''Signal''), (''cosmic'', ''Cosmic'')]
     = [''Signal'', ''Other nu'', ''Cosmic'']"
  using groups_are_values_first_seen
    [of "[(''numu_cc'', ''Signal''), (''nue_cc'', ''Other nu''), (''nc'', ''Other nu''),
          (''numu_cc_oofv'', ''Signal''), (''cosmic'', ''Cosmic'')]"]
  by (simp add: dict_values_def)

end
